theory Spec2Isabelle
  imports Complex_Main "HOL-Library.Sublist" "HOL-Library.AList"
begin

section \<open>Python values\<close>

text \<open>
  \<^verbatim>\<open>main.py\<close> works on the values that \<^verbatim>\<open>json.loads\<close> returns: \<^verbatim>\<open>None\<close>, booleans,
  integers of any size, floats, strings, lists and dicts with string keys. The type
  \<open>'f\<close> stands for Python's \<^verbatim>\<open>float\<close>; its arithmetic is not interpreted here, it is
  supplied by the environment below. A dict is an association list in insertion order,
  read as the dict in which the first pair with a key is the binding of that key.
\<close>

datatype 'f json =
    JNull
  | JBool bool
  | JInt int
  | JFloat 'f
  | JStr string
  | JList "'f json list"
  | JObj "(string \<times> 'f json) list"

type_synonym 'f pydict = "(string \<times> 'f json) list"

text \<open>\<^verbatim>\<open>type(v).__name__\<close>, as it appears in the messages of the built-in exceptions.\<close>

fun type_name :: "'f json \<Rightarrow> string" where
  "type_name JNull = ''NoneType''"
| "type_name (JBool _) = ''bool''"
| "type_name (JInt _) = ''int''"
| "type_name (JFloat _) = ''float''"
| "type_name (JStr _) = ''str''"
| "type_name (JList _) = ''list''"
| "type_name (JObj _) = ''dict''"

text \<open>\<^verbatim>\<open>d.get(k, default)\<close>, \<^verbatim>\<open>k in d\<close> and \<^verbatim>\<open>d.values()\<close> of a dict.\<close>

definition dict_get :: "'f pydict \<Rightarrow> string \<Rightarrow> 'f json \<Rightarrow> 'f json" where
  "dict_get d k dflt = (case map_of d k of Some v \<Rightarrow> v | None \<Rightarrow> dflt)"

definition dict_has :: "'f pydict \<Rightarrow> string \<Rightarrow> bool" where
  "dict_has d k = (case map_of d k of Some _ \<Rightarrow> True | None \<Rightarrow> False)"

fun dict_items :: "string list \<Rightarrow> 'f pydict \<Rightarrow> 'f pydict" where
  "dict_items seen [] = []"
| "dict_items seen ((k, v) # d) =
     (if k \<in> set seen then dict_items seen d else (k, v) # dict_items (k # seen) d)"

definition dict_values :: "'f pydict \<Rightarrow> 'f json list" where
  "dict_values d = map snd (dict_items [] d)"

section \<open>Exceptions\<close>

text \<open>
  Every exception the code raises or catches is a value. Each carries the text that
  \<^verbatim>\<open>str(e)\<close> gives, except \<open>HTTPException\<close>, which carries its status code and detail;
  \<open>LibraryError\<close> is any exception of a library (PyPDF2, python-docx, the OpenAI
  client) with its message.
\<close>

datatype py_exc =
    HTTPException nat string
  | ValueError string
  | JSONDecodeError string
  | AttributeError string
  | TypeError string
  | ZeroDivisionError string
  | OverflowError string
  | LibraryError string

type_synonym 'a result = "py_exc + 'a"

section \<open>The environment: libraries and the oracle\<close>

text \<open>
  What \<^verbatim>\<open>main.py\<close> calls but does not define. A trace of the external calls made so far
  is threaded through the batch, and the oracle's answer may depend on it as well as on
  the request, so that equal requests need not get equal answers.
  \<^item> \<open>loads\<close> is \<^verbatim>\<open>json.loads\<close>;
  \<^item> \<open>pdf_text\<close> is \<^verbatim>\<open>PdfReader\<close> on the content and the join of the page texts,
    \<open>docx_text\<close> is \<^verbatim>\<open>Document\<close> on the content and the join of the paragraphs;
  \<^item> \<open>chat\<close> is the \<^verbatim>\<open>gpt-4o-mini\<close> request of \<^verbatim>\<open>evaluate_resume\<close>, up to the content of
    the first choice, for a resume text and a criteria list;
  \<^item> \<open>http_str\<close> is \<^verbatim>\<open>str\<close> of an \<open>HTTPException\<close> with a status code and a detail;
  \<^item> \<open>fits_float\<close> says whether an integer converts to a float, \<open>float_sum\<close> is the
    float that \<^verbatim>\<open>sum\<close> computes, \<open>int_truediv\<close> and \<open>float_truediv\<close> are \<^verbatim>\<open>/\<close> by a
    length, and \<open>round2\<close> is \<^verbatim>\<open>round(x, 2)\<close>.
\<close>

datatype event =
    FileRead string
  | OracleCall string "string list"

datatype 'f num = NInt int | NFloat 'f

record 'f env =
  loads :: "string \<Rightarrow> 'f json result"
  pdf_text :: "string \<Rightarrow> string result"
  docx_text :: "string \<Rightarrow> string result"
  chat :: "event list \<Rightarrow> string \<Rightarrow> string list \<Rightarrow> string result"
  http_str :: "nat \<Rightarrow> string \<Rightarrow> string"
  fits_float :: "int \<Rightarrow> bool"
  float_sum :: "'f num list \<Rightarrow> 'f"
  int_truediv :: "int \<Rightarrow> nat \<Rightarrow> 'f result"
  float_truediv :: "'f \<Rightarrow> nat \<Rightarrow> 'f result"
  round2 :: "'f \<Rightarrow> 'f"

text \<open>\<^verbatim>\<open>str(e)\<close>.\<close>

fun exc_str :: "'f env \<Rightarrow> py_exc \<Rightarrow> string" where
  "exc_str E (HTTPException code detail) = http_str E code detail"
| "exc_str E (ValueError m) = m"
| "exc_str E (JSONDecodeError m) = m"
| "exc_str E (AttributeError m) = m"
| "exc_str E (TypeError m) = m"
| "exc_str E (ZeroDivisionError m) = m"
| "exc_str E (OverflowError m) = m"
| "exc_str E (LibraryError m) = m"

section \<open>Strings\<close>

text \<open>
  \<^verbatim>\<open>s.endswith(suf)\<close>, \<^verbatim>\<open>pat in s\<close>, \<^verbatim>\<open>sep.join(xs)\<close> and \<^verbatim>\<open>s.lower()\<close>. Lowering maps the
  letters A to Z and leaves every other character alone; on the suffix tests of the
  code, which look for ASCII text without \<open>k\<close> or \<open>i\<close>, that agrees with Python's
  Unicode lowering.
\<close>

definition endswith :: "string \<Rightarrow> string \<Rightarrow> bool" where
  "endswith s suf = (length suf \<le> length s \<and> drop (length s - length suf) s = suf)"

definition startswith :: "string \<Rightarrow> string \<Rightarrow> bool" where
  "startswith s p = (take (length p) s = p)"

fun contains :: "string \<Rightarrow> string \<Rightarrow> bool" where
  "contains pat [] = (pat = [])"
| "contains pat (c # s) = (startswith (c # s) pat \<or> contains pat s)"

fun join :: "string \<Rightarrow> string list \<Rightarrow> string" where
  "join sep [] = []"
| "join sep [x] = x"
| "join sep (x # y # ys) = x @ sep @ join sep (y # ys)"

definition lower_char :: "char \<Rightarrow> char" where
  "lower_char c =
     (case map_of (zip ''ABCDEFGHIJKLMNOPQRSTUVWXYZ'' ''abcdefghijklmnopqrstuvwxyz'') c of
        Some l \<Rightarrow> l
      | None \<Rightarrow> c)"

definition lower :: "string \<Rightarrow> string" where
  "lower s = map lower_char s"

section \<open>parse\_criteria\<close>

text \<open>
  The three shapes of \<^verbatim>\<open>Union[str, Dict, ExtractCriteriaResponse]\<close>, and anything else.
  The pydantic model holds a list of strings.
\<close>

datatype 'f raw_criteria =
    RawStr string
  | RawDict "'f pydict"
  | RawModel "string list"
  | RawOther

definition msg_json_key :: string where
  "msg_json_key = ''JSON must contain a 'criteria' key with an array value''"

definition msg_dict_key :: string where
  "msg_dict_key = ''Dictionary must contain a 'criteria' key with an array value''"

text \<open>
  The two handlers of the \<^verbatim>\<open>try\<close>: a \<open>JSONDecodeError\<close> becomes "Invalid JSON format",
  every other exception, the function's own \<open>ValueError\<close>s included, becomes
  "Error parsing criteria".
\<close>

fun criteria_handler :: "'f env \<Rightarrow> py_exc \<Rightarrow> py_exc" where
  "criteria_handler E (JSONDecodeError m) = ValueError (''Invalid JSON format: '' @ m)"
| "criteria_handler E e = ValueError (''Error parsing criteria: '' @ exc_str E e)"

definition parse_criteria :: "'f env \<Rightarrow> 'f raw_criteria \<Rightarrow> 'f json result" where
  "parse_criteria E criteria_input =
     (case criteria_input of
        RawStr s \<Rightarrow>
          (case loads E s of
             Inl e \<Rightarrow> Inl (criteria_handler E e)
           | Inr parsed \<Rightarrow>
               (case parsed of
                  JObj d \<Rightarrow>
                    if dict_has d ''criteria'' then Inr (dict_get d ''criteria'' JNull)
                    else Inl (criteria_handler E (ValueError msg_json_key))
                | _ \<Rightarrow> Inl (criteria_handler E (ValueError msg_json_key))))
      | RawDict d \<Rightarrow>
          if dict_has d ''criteria'' then Inr (dict_get d ''criteria'' JNull)
          else Inl (criteria_handler E (ValueError msg_dict_key))
      | RawModel cs \<Rightarrow> Inr (JList (map JStr cs))
      | RawOther \<Rightarrow> Inl (criteria_handler E (ValueError ''Unsupported criteria format'')))"

section \<open>extract\_text\_from\_file\<close>

record upload_file =
  filename :: string
  content :: string

definition msg_unsupported_type :: string where
  "msg_unsupported_type = ''Unsupported file type. Only PDF and DOCX are allowed.''"

definition extract_text_from_file :: "'f env \<Rightarrow> upload_file \<Rightarrow> string result" where
  "extract_text_from_file E file =
     (if endswith (filename file) ''.pdf'' then pdf_text E (content file)
      else if endswith (filename file) ''.docx'' then docx_text E (content file)
      else Inl (HTTPException 400 msg_unsupported_type))"

section \<open>evaluate\_resume\<close>

text \<open>
  The request is determined by the resume text and the criteria; whatever the call or
  the decoding of its answer raises is wrapped in a \<open>ValueError\<close>, and whatever
  \<^verbatim>\<open>json.loads\<close> returns is returned as it is.
\<close>

definition evaluate_resume ::
  "'f env \<Rightarrow> event list \<Rightarrow> string \<Rightarrow> string list \<Rightarrow> 'f json result" where
  "evaluate_resume E tr text criteria =
     (case chat E tr text criteria of
        Inl e \<Rightarrow> Inl (ValueError (''Error evaluating resume: '' @ exc_str E e))
      | Inr answer \<Rightarrow>
          (case loads E answer of
             Inl e \<Rightarrow> Inl (ValueError (''Error evaluating resume: '' @ exc_str E e))
           | Inr v \<Rightarrow> Inr v))"

section \<open>score\_resumes: one document\<close>

text \<open>
  A row is the Python dict built for one document, in insertion order; assigning to a
  key that is already there keeps its place (\<open>AList.update\<close>).
\<close>

type_synonym 'f row = "(string \<times> 'f json) list"

definition score_key :: "string \<Rightarrow> string" where
  "score_key criterion = criterion @ '' (Score)''"

definition explanation_key :: "string \<Rightarrow> string" where
  "explanation_key criterion = criterion @ '' (Explanation)''"

definition quoted :: "string \<Rightarrow> string" where
  "quoted s = [CHR 0x27] @ s @ [CHR 0x27]"

definition no_attribute :: "'f json \<Rightarrow> string \<Rightarrow> py_exc" where
  "no_attribute v a =
     AttributeError (quoted (type_name v) @ '' object has no attribute '' @ quoted a)"

text \<open>
  The loop over \<^verbatim>\<open>criteria_list\<close>: \<^verbatim>\<open>scores.get\<close> and \<^verbatim>\<open>explanations.get\<close> need dicts,
  and are only reached when there is a criterion.
\<close>

fun fill_row :: "string list \<Rightarrow> 'f json \<Rightarrow> 'f json \<Rightarrow> 'f row \<Rightarrow> 'f row result" where
  "fill_row [] scores explanations row = Inr row"
| "fill_row (criterion # cs) scores explanations row =
     (case scores of
        JObj sd \<Rightarrow>
          (case explanations of
             JObj ed \<Rightarrow>
               fill_row cs scores explanations
                 (AList.update (explanation_key criterion)
                    (dict_get ed criterion (JStr ''No explanation provided''))
                    (AList.update (score_key criterion) (dict_get sd criterion (JInt 0)) row))
           | _ \<Rightarrow> Inl (no_attribute explanations ''get''))
      | _ \<Rightarrow> Inl (no_attribute scores ''get''))"

text \<open>
  \<^verbatim>\<open>sum(scores.values())\<close>: the built-in starts at the integer 0 and adds from the left.
  Integers add exactly and a boolean counts as 0 or 1. The first float turns the sum
  into a float: the integer reached so far must fit a float, and so must every integer
  that comes later; the value is what the interpreter's float arithmetic makes of that
  integer and the numbers after it (\<open>float_sum\<close>). Anything that is not a number is a
  \<open>TypeError\<close>.
\<close>

datatype 'f acc = AInt int | AFloat "'f num list"

definition msg_int_too_large :: string where
  "msg_int_too_large = ''int too large to convert to float''"

fun num_json :: "'f num \<Rightarrow> 'f json" where
  "num_json (NInt i) = JInt i"
| "num_json (NFloat x) = JFloat x"

definition unsupported_operand :: "string \<Rightarrow> 'f json \<Rightarrow> py_exc" where
  "unsupported_operand l v =
     TypeError (''unsupported operand type(s) for +: '' @ quoted l @ '' and '' @ quoted (type_name v))"

fun py_add :: "'f env \<Rightarrow> 'f acc \<Rightarrow> 'f json \<Rightarrow> 'f acc result" where
  "py_add E (AInt a) (JInt i) = Inr (AInt (a + i))"
| "py_add E (AInt a) (JBool b) = Inr (AInt (a + (if b then 1 else 0)))"
| "py_add E (AInt a) (JFloat x) =
     (if fits_float E a then Inr (AFloat [NInt a, NFloat x])
      else Inl (OverflowError msg_int_too_large))"
| "py_add E (AInt a) v = Inl (unsupported_operand ''int'' v)"
| "py_add E (AFloat ts) (JInt i) =
     (if fits_float E i then Inr (AFloat (ts @ [NInt i]))
      else Inl (OverflowError msg_int_too_large))"
| "py_add E (AFloat ts) (JBool b) = Inr (AFloat (ts @ [NInt (if b then 1 else 0)]))"
| "py_add E (AFloat ts) (JFloat x) = Inr (AFloat (ts @ [NFloat x]))"
| "py_add E (AFloat ts) v = Inl (unsupported_operand ''float'' v)"

fun py_sum_from :: "'f env \<Rightarrow> 'f acc \<Rightarrow> 'f json list \<Rightarrow> 'f acc result" where
  "py_sum_from E acc [] = Inr acc"
| "py_sum_from E acc (v # vs) =
     (case py_add E acc v of Inl e \<Rightarrow> Inl e | Inr acc' \<Rightarrow> py_sum_from E acc' vs)"

definition sum_values :: "'f env \<Rightarrow> 'f json \<Rightarrow> 'f num result" where
  "sum_values E scores =
     (case scores of
        JObj sd \<Rightarrow>
          (case py_sum_from E (AInt 0) (dict_values sd) of
             Inl e \<Rightarrow> Inl e
           | Inr (AInt a) \<Rightarrow> Inr (NInt a)
           | Inr (AFloat ts) \<Rightarrow> Inr (NFloat (float_sum E ts)))
      | _ \<Rightarrow> Inl (no_attribute scores ''values''))"

text \<open>\<^verbatim>\<open>total / len(criteria_list)\<close>, Python's true division, which gives a float.\<close>

fun truediv :: "'f env \<Rightarrow> 'f num \<Rightarrow> nat \<Rightarrow> 'f result" where
  "truediv E (NInt t) n = int_truediv E t n"
| "truediv E (NFloat x) n = float_truediv E x n"

text \<open>Lines 180 to 193: the row of one document, from its file name and the oracle's result.\<close>

definition build_row :: "'f env \<Rightarrow> string list \<Rightarrow> string \<Rightarrow> 'f json \<Rightarrow> 'f row result" where
  "build_row E criteria_list fname result =
     (case result of
        JObj rd \<Rightarrow>
          (let row = [(''Filename'', JStr fname),
                      (''Candidate Name'', dict_get rd ''name'' (JStr ''Unknown''))];
               scores = dict_get rd ''scores'' (JObj []);
               explanations = dict_get rd ''explanations'' (JObj [])
           in case fill_row criteria_list scores explanations row of
                Inl e \<Rightarrow> Inl e
              | Inr row1 \<Rightarrow>
                  (case sum_values E scores of
                     Inl e \<Rightarrow> Inl e
                   | Inr tot \<Rightarrow>
                       (case truediv E tot (length criteria_list) of
                          Inl e \<Rightarrow> Inl e
                        | Inr avg \<Rightarrow>
                            Inr (AList.update ''Average Score'' (JFloat (round2 E avg))
                                   (AList.update ''Total Score'' (num_json tot) row1)))))
      | _ \<Rightarrow> Inl (no_attribute result ''get''))"

text \<open>
  The body of the \<^verbatim>\<open>try\<close> for one file: read and extract, ask the oracle, build the row.
  The second component is the trace after it.
\<close>

definition process_file ::
  "'f env \<Rightarrow> string list \<Rightarrow> event list \<Rightarrow> upload_file \<Rightarrow> 'f row result \<times> event list" where
  "process_file E criteria_list tr file =
     (let tr1 = tr @ [FileRead (filename file)]
      in case extract_text_from_file E file of
           Inl e \<Rightarrow> (Inl e, tr1)
         | Inr text \<Rightarrow>
             (case evaluate_resume E tr1 text criteria_list of
                Inl e \<Rightarrow> (Inl e, tr1 @ [OracleCall text criteria_list])
              | Inr result \<Rightarrow>
                  (build_row E criteria_list (filename file) result,
                   tr1 @ [OracleCall text criteria_list])))"

definition error_entry :: "'f env \<Rightarrow> upload_file \<Rightarrow> py_exc \<Rightarrow> string" where
  "error_entry E file e = ''Error processing '' @ filename file @ '': '' @ exc_str E e"

section \<open>score\_resumes: the batch\<close>

text \<open>The loop of lines 174 to 199, with \<^verbatim>\<open>rows\<close>, \<^verbatim>\<open>errors\<close> and the trace as its state.\<close>

fun process_files ::
  "'f env \<Rightarrow> string list \<Rightarrow> upload_file list \<Rightarrow> 'f row list \<times> string list \<times> event list \<Rightarrow>
     'f row list \<times> string list \<times> event list" where
  "process_files E criteria_list [] st = st"
| "process_files E criteria_list (file # files) (rows, errors, tr) =
     (case process_file E criteria_list tr file of
        (Inr row, tr') \<Rightarrow> process_files E criteria_list files (rows @ [row], errors, tr')
      | (Inl e, tr') \<Rightarrow>
          process_files E criteria_list files (rows, errors @ [error_entry E file e], tr'))"

text \<open>The check of lines 164 and 165.\<close>

definition accepted_name :: "string \<Rightarrow> bool" where
  "accepted_name fname = (endswith (lower fname) ''.pdf'' \<or> endswith (lower fname) ''.docx'')"

text \<open>
  \<^verbatim>\<open>pd.DataFrame(rows)\<close> takes as columns the keys of the rows in the order in which they
  first appear; \<^verbatim>\<open>df[cols]\<close> picks columns by name, in the order asked, one per name
  asked. A cell is \<open>None\<close> where a row has no such key.
\<close>

fun first_seen :: "string list \<Rightarrow> string list \<Rightarrow> string list" where
  "first_seen seen [] = []"
| "first_seen seen (k # ks) =
     (if k \<in> set seen then first_seen seen ks else k # first_seen (k # seen) ks)"

definition frame_columns :: "'f row list \<Rightarrow> string list" where
  "frame_columns rows = first_seen [] (concat (map (map fst) rows))"

record 'f frame =
  columns :: "string list"
  cells :: "'f json option list list"

definition report_columns :: "'f row list \<Rightarrow> string list" where
  "report_columns rows =
     (let cols = frame_columns rows;
          score_cols = filter (contains ''Score'') cols;
          explanation_cols = filter (contains ''Explanation'') cols;
          base_cols = [''Filename'', ''Candidate Name'']
      in base_cols @ score_cols @ explanation_cols)"

definition report :: "'f row list \<Rightarrow> 'f frame" where
  "report rows =
     \<lparr>columns = report_columns rows,
      cells = map (\<lambda>row. map (map_of row) (report_columns rows)) rows\<rparr>"

definition msg_no_files :: string where
  "msg_no_files = ''At least one resume file is required''"

definition msg_unsupported_format :: "string \<Rightarrow> string" where
  "msg_unsupported_format fname =
     ''Unsupported file format for '' @ fname @ ''. Only PDF and DOCX files are accepted.''"

definition msg_all_failed :: "string list \<Rightarrow> string" where
  "msg_all_failed errors =
     ''No resumes could be processed successfully. Errors: '' @ join ''; '' errors"

text \<open>
  Lines 161 to 213, for a \<^verbatim>\<open>criteria_list\<close> of the type \<^verbatim>\<open>parse_criteria\<close> declares, a list
  of strings. The result is the exception raised or the frame handed to the Excel
  writer, with the trace of the external calls made. Writing the workbook and the
  download response (lines 215 to 233) are library calls on that frame.
\<close>

definition score_resumes ::
  "'f env \<Rightarrow> string list \<Rightarrow> upload_file list \<Rightarrow> 'f frame result \<times> event list" where
  "score_resumes E criteria_list files =
     (if files = [] then (Inl (HTTPException 400 msg_no_files), [])
      else case find (\<lambda>file. \<not> accepted_name (filename file)) files of
             Some file \<Rightarrow> (Inl (HTTPException 400 (msg_unsupported_format (filename file))), [])
           | None \<Rightarrow>
               (case process_files E criteria_list files ([], [], []) of
                  (rows, errors, tr) \<Rightarrow>
                    if rows = [] then (Inl (HTTPException 400 (msg_all_failed errors)), tr)
                    else (Inr (report rows), tr)))"


section \<open>Vocabulary for the properties\<close>

text \<open>The four keys of a row that do not come from a criterion, and the two that do.\<close>

definition fixed_keys :: "string set" where
  "fixed_keys = {''Filename'', ''Candidate Name'', ''Total Score'', ''Average Score''}"

definition criterion_keys :: "string \<Rightarrow> string list" where
  "criterion_keys c = [score_key c, explanation_key c]"

text \<open>
  The outcome of each document of a batch, in input order: what the body of the \<^verbatim>\<open>try\<close>
  gives for it, run from the trace the documents before it have left.
\<close>

fun outcomes ::
  "'f env \<Rightarrow> string list \<Rightarrow> event list \<Rightarrow> upload_file list \<Rightarrow> 'f row result list" where
  "outcomes E criteria_list tr [] = []"
| "outcomes E criteria_list tr (file # files) =
     (case process_file E criteria_list tr file of
        (r, tr') \<Rightarrow> r # outcomes E criteria_list tr' files)"

text \<open>The documents that gave a row, with the row, and those that raised, with the exception.\<close>

fun succeeded :: "upload_file list \<Rightarrow> 'f row result list \<Rightarrow> (upload_file \<times> 'f row) list" where
  "succeeded (file # files) (Inr row # rs) = (file, row) # succeeded files rs"
| "succeeded (file # files) (Inl e # rs) = succeeded files rs"
| "succeeded _ _ = []"

fun failed :: "upload_file list \<Rightarrow> 'f row result list \<Rightarrow> (upload_file \<times> py_exc) list" where
  "failed (file # files) (Inl e # rs) = (file, e) # failed files rs"
| "failed (file # files) (Inr row # rs) = failed files rs"
| "failed _ _ = []"

text \<open>The header of the frame a batch ends with, if it ends with one.\<close>

definition batch_columns :: "'f env \<Rightarrow> string list \<Rightarrow> upload_file list \<Rightarrow> string list option" where
  "batch_columns E criteria_list files =
     (case fst (score_resumes E criteria_list files) of
        Inr fr \<Rightarrow> Some (columns fr)
      | Inl _ \<Rightarrow> None)"

section \<open>A concrete environment\<close>

text \<open>
  An environment to run the model on: the decoders return the file content as the
  text unless it is \<open>corrupt\<close>, the oracle answers with the resume text itself unless
  that is \<open>down\<close>, and \<^verbatim>\<open>json.loads\<close> knows the few texts below. Floats are rationals
  with exact arithmetic, and \<^verbatim>\<open>str\<close> of an \<open>HTTPException\<close> is its detail.
\<close>

definition criteria_5_text :: string where
  "criteria_5_text = ''{'' @ [CHR 0x22] @ ''criteria'' @ [CHR 0x22] @ '': 5}''"

definition criteria_ab_text :: string where
  "criteria_ab_text =
     ''{'' @ [CHR 0x22] @ ''criteria'' @ [CHR 0x22] @ '': ['' @ [CHR 0x22] @ ''a'' @ [CHR 0x22]
       @ '', '' @ [CHR 0x22] @ ''b'' @ [CHR 0x22] @ '']}''"

definition jane_result :: "rat json" where
  "jane_result =
     JObj [(''name'', JStr ''Jane Doe''),
           (''scores'', JObj [(''5+ years Python'', JInt 5), (''AWS certification'', JInt 0)]),
           (''explanations'', JObj [(''5+ years Python'', JStr ''ten years'')])]"

definition extra_result :: "rat json" where
  "extra_result =
     JObj [(''name'', JStr ''Bob''),
           (''scores'', JObj [(''a'', JInt 3), (''b'', JInt 2)]),
           (''explanations'', JObj [(''a'', JStr ''some'')])]"

definition words_result :: "rat json" where
  "words_result =
     JObj [(''name'', JStr ''Eve''),
           (''scores'', JObj [(''a'', JStr ''high'')]),
           (''explanations'', JObj [])]"

definition demo_answers :: "(string \<times> rat json) list" where
  "demo_answers =
     [(criteria_5_text, JObj [(''criteria'', JInt 5)]),
      (criteria_ab_text, JObj [(''criteria'', JList [JStr ''a'', JStr ''b''])]),
      (''jane'', jane_result),
      (''extra'', extra_result),
      (''words'', words_result),
      (''list'', JList [])]"

definition demo :: "rat env" where
  "demo =
     \<lparr>loads = (\<lambda>s. case map_of demo_answers s of
                      Some v \<Rightarrow> Inr v
                    | None \<Rightarrow> Inl (JSONDecodeError ''Expecting value: line 1 column 1 (char 0)'')),
      pdf_text = (\<lambda>c. if c = ''corrupt'' then Inl (LibraryError ''EOF marker not found'') else Inr c),
      docx_text = (\<lambda>c. if c = ''corrupt'' then Inl (LibraryError ''File is not a zip file'') else Inr c),
      chat = (\<lambda>tr text criteria.
                if text = ''down'' then Inl (LibraryError ''Connection error.'') else Inr text),
      http_str = (\<lambda>code detail. detail),
      fits_float = (\<lambda>i. True),
      float_sum = (\<lambda>ts. sum_list (map (\<lambda>t. case t of NInt i \<Rightarrow> of_int i | NFloat x \<Rightarrow> x) ts)),
      int_truediv = (\<lambda>t n. if n = 0 then Inl (ZeroDivisionError ''division by zero'')
                            else Inr (of_int t / of_nat n)),
      float_truediv = (\<lambda>x n. if n = 0 then Inl (ZeroDivisionError ''float division by zero'')
                              else Inr (x / of_nat n)),
      round2 = (\<lambda>x. of_int (round (x * 100)) / 100)\<rparr>"

definition bob_row :: "rat row" where
  "bob_row =
     [(''Filename'', JStr ''bob.pdf''), (''Candidate Name'', JStr ''Bob''),
      (''a (Score)'', JInt 3), (''a (Explanation)'', JStr ''some''),
      (''Total Score'', JInt 5), (''Average Score'', JFloat 5)]"

definition bob_row_ab :: "rat row" where
  "bob_row_ab =
     [(''Filename'', JStr ''bob.pdf''), (''Candidate Name'', JStr ''Bob''),
      (''a (Score)'', JInt 3), (''a (Explanation)'', JStr ''some''),
      (''b (Score)'', JInt 2), (''b (Explanation)'', JStr ''No explanation provided''),
      (''Total Score'', JInt 5), (''Average Score'', JFloat (167 / 100))]"

definition bob_row_ac :: "rat row" where
  "bob_row_ac =
     [(''Filename'', JStr ''bob.pdf''), (''Candidate Name'', JStr ''Bob''),
      (''a (Score)'', JInt 3), (''a (Explanation)'', JStr ''some''),
      (''c (Score)'', JInt 0), (''c (Explanation)'', JStr ''No explanation provided''),
      (''Total Score'', JInt 5), (''Average Score'', JFloat (5 / 2))]"

definition cv_extra :: upload_file where
  "cv_extra = \<lparr>filename = ''bob.pdf'', content = ''extra''\<rparr>"

definition cv_upper :: upload_file where
  "cv_upper = \<lparr>filename = ''resume.PDF'', content = ''extra''\<rparr>"

definition cv_words :: upload_file where
  "cv_words = \<lparr>filename = ''eve.docx'', content = ''words''\<rparr>"

definition cv_list :: upload_file where
  "cv_list = \<lparr>filename = ''list.docx'', content = ''list''\<rparr>"

definition cv_txt :: upload_file where
  "cv_txt = \<lparr>filename = ''notes.txt'', content = ''extra''\<rparr>"


section \<open>Strings and keys\<close>

lemma startswith_prefix: "startswith s p = prefix p s"
  unfolding startswith_def prefix_def
  by (metis append_eq_conv_conj)

lemma contains_sublist: "contains p s = sublist p s"
  by (induction s) (auto simp: startswith_prefix sublist_Cons_right)

lemma endswith_suffix: "endswith s suf = suffix suf s"
  by (auto simp: endswith_def suffix_def) (metis append_take_drop_id)

lemma sublist_across:
  assumes "x \<notin> set p"
  shows "sublist p (c @ x # t) \<longleftrightarrow> sublist p c \<or> sublist p t"
proof
  assume "sublist p (c @ x # t)"
  then consider "sublist p c" | "sublist p (x # t)"
    | p1 p2 where "p = p1 @ p2" "suffix p1 c" "prefix p2 (x # t)"
    unfolding sublist_append by blast
  then show "sublist p c \<or> sublist p t"
  proof cases
    case 1 then show ?thesis by simp
  next
    case 2
    then have "prefix p (x # t) \<or> sublist p t" by (simp add: sublist_Cons_right)
    moreover have "prefix p (x # t) \<Longrightarrow> p = []" using assms by (cases p) auto
    ultimately show ?thesis by auto
  next
    case 3
    have "p2 = []" using 3(1,3) assms by (cases p2) auto
    with 3 show ?thesis by (auto simp: suffix_def)
  qed
next
  assume "sublist p c \<or> sublist p t"
  then show "sublist p (c @ x # t)"
    by (metis sublist_append sublist_Cons_right)
qed

lemma contains_Score_score_key: "contains ''Score'' (score_key c)"
  unfolding contains_sublist score_key_def sublist_def
  by (rule exI[of _ "c @ '' (''"], rule exI[of _ "'')''"]) simp

lemma contains_Explanation_explanation_key: "contains ''Explanation'' (explanation_key c)"
  unfolding contains_sublist explanation_key_def sublist_def
  by (rule exI[of _ "c @ '' (''"], rule exI[of _ "'')''"]) simp

lemma contains_Score_explanation_key:
  "contains ''Score'' (explanation_key c) = contains ''Score'' c"
proof -
  have "\<not> contains ''Score'' ''(Explanation)''" by code_simp
  then show ?thesis
    unfolding explanation_key_def contains_sublist
    by (simp add: sublist_across)
qed

lemma contains_Explanation_score_key:
  "contains ''Explanation'' (score_key c) = contains ''Explanation'' c"
proof -
  have "\<not> contains ''Explanation'' ''(Score)''" by code_simp
  then show ?thesis
    unfolding score_key_def contains_sublist
    by (simp add: sublist_across)
qed

lemma score_key_inj [simp]: "score_key a = score_key b \<longleftrightarrow> a = b"
  by (simp add: score_key_def)

lemma explanation_key_inj [simp]: "explanation_key a = explanation_key b \<longleftrightarrow> a = b"
  by (simp add: explanation_key_def)

lemma append_eq_rev: "a @ s = b @ t \<Longrightarrow> rev s @ rev a = rev t @ rev b"
  by (metis rev_append)

lemma score_neq_explanation [simp]: "score_key a \<noteq> explanation_key b"
  unfolding score_key_def explanation_key_def
  by (auto dest!: append_eq_rev)

lemma explanation_neq_score [simp]: "explanation_key a \<noteq> score_key b"
  by (metis score_neq_explanation)

lemma score_key_not_fixed [simp]: "score_key a \<notin> fixed_keys"
  unfolding score_key_def fixed_keys_def
  by (auto dest!: append_eq_rev[where b = "[]", simplified]
                  append_eq_rev[where t="_ # _" and b = "[]", simplified])

lemma explanation_key_not_fixed [simp]: "explanation_key a \<notin> fixed_keys"
  unfolding explanation_key_def fixed_keys_def
  by (auto dest!: append_eq_rev[where b = "[]", simplified]
                  append_eq_rev[where t="_ # _" and b = "[]", simplified])

section \<open>Columns in order of first appearance\<close>

lemma first_seen_set_cong:
  "set s1 = set s2 \<Longrightarrow> first_seen s1 ks = first_seen s2 ks"
proof (induction ks arbitrary: s1 s2)
  case Nil show ?case by simp
next
  case (Cons k ks)
  have "set (k # s1) = set (k # s2)" using Cons.prems by simp
  from Cons.IH[OF this] Cons.IH[OF Cons.prems] Cons.prems show ?case by simp
qed

lemma first_seen_distinct:
  "distinct ks \<Longrightarrow> set ks \<inter> set seen = {} \<Longrightarrow> first_seen seen ks = ks"
  by (induction ks arbitrary: seen) auto

lemma first_seen_set: "set (first_seen seen ks) = set ks - set seen"
  by (induction ks arbitrary: seen) auto

lemma first_seen_is_distinct: "distinct (first_seen seen ks)"
  by (induction ks arbitrary: seen) (auto simp: first_seen_set)

lemma first_seen_all_seen: "set ks \<subseteq> set seen \<Longrightarrow> first_seen seen ks = []"
  by (induction ks arbitrary: seen) auto

lemma first_seen_append:
  "first_seen seen (a @ b) = first_seen seen a @ first_seen (a @ seen) b"
proof (induction a arbitrary: seen)
  case Nil show ?case by simp
next
  case (Cons k a)
  have 1: "first_seen (a @ k # seen) b = first_seen (k # a @ seen) b"
    by (rule first_seen_set_cong) auto
  have 2: "k \<in> set seen \<Longrightarrow> first_seen (k # a @ seen) b = first_seen (a @ seen) b"
    by (rule first_seen_set_cong) auto
  show ?case using Cons.IH[of seen] Cons.IH[of "k # seen"] 1 2 by auto
qed

lemma first_seen_same_keys:
  assumes "\<forall>row \<in> set rows. map fst row = K"
  shows "first_seen K (concat (map (map fst) rows)) = []"
  using assms by (intro first_seen_all_seen) auto

lemma frame_columns_same_keys:
  assumes "rows \<noteq> []" and "\<forall>row \<in> set rows. map fst row = K" and "distinct K"
  shows "frame_columns rows = K"
proof -
  obtain r rs where rows: "rows = r # rs" using assms(1) by (cases rows) auto
  have "frame_columns rows = first_seen [] (K @ concat (map (map fst) rs))"
    using assms(2) by (simp add: frame_columns_def rows)
  also have "\<dots> = first_seen [] K @ first_seen (K @ []) (concat (map (map fst) rs))"
    by (rule first_seen_append)
  also have "first_seen [] K = K" using assms(3) by (simp add: first_seen_distinct)
  also have "first_seen (K @ []) (concat (map (map fst) rs)) = []"
    using first_seen_same_keys[of rs K] assms(2) by (simp add: rows)
  finally show ?thesis by simp
qed

section \<open>The row of one document\<close>

lemma fill_row_dicts:
  "fill_row cl s e row = Inr row' \<Longrightarrow> cl \<noteq> [] \<Longrightarrow> \<exists>sd ed. s = JObj sd \<and> e = JObj ed"
  by (cases cl) (auto split: json.splits)

lemma fill_row_keyset:
  "fill_row cl s e row = Inr row' \<Longrightarrow>
   fst ` set row' = fst ` set row \<union> score_key ` set cl \<union> explanation_key ` set cl"
proof (induction cl arbitrary: row)
  case Nil then show ?case by simp
next
  case (Cons c cs)
  from Cons.prems obtain sd ed where d: "s = JObj sd" "e = JObj ed"
    using fill_row_dicts by blast
  let ?r = "AList.update (explanation_key c) (dict_get ed c (JStr ''No explanation provided''))
              (AList.update (score_key c) (dict_get sd c (JInt 0)) row)"
  from Cons.prems d have "fill_row cs s e ?r = Inr row'" by simp
  from Cons.IH[OF this] show ?case by (auto simp: dom_update)
qed

lemma fill_row_score:
  "fill_row cl (JObj sd) e row = Inr row' \<Longrightarrow>
   map_of row' (score_key c) =
     (if c \<in> set cl then Some (dict_get sd c (JInt 0)) else map_of row (score_key c))"
proof (induction cl arbitrary: row)
  case Nil then show ?case by simp
next
  case (Cons x xs)
  from Cons.prems obtain ed where d: "e = JObj ed"
    using fill_row_dicts by blast
  let ?r = "AList.update (explanation_key x) (dict_get ed x (JStr ''No explanation provided''))
              (AList.update (score_key x) (dict_get sd x (JInt 0)) row)"
  from Cons.prems d have "fill_row xs (JObj sd) e ?r = Inr row'" by simp
  from Cons.IH[OF this] show ?case by (auto simp: update_conv')
qed

lemma fill_row_explanation:
  "fill_row cl s (JObj ed) row = Inr row' \<Longrightarrow>
   map_of row' (explanation_key c) =
     (if c \<in> set cl then Some (dict_get ed c (JStr ''No explanation provided''))
      else map_of row (explanation_key c))"
proof (induction cl arbitrary: row)
  case Nil then show ?case by simp
next
  case (Cons x xs)
  from Cons.prems obtain sd where d: "s = JObj sd"
    using fill_row_dicts by blast
  let ?r = "AList.update (explanation_key x) (dict_get ed x (JStr ''No explanation provided''))
              (AList.update (score_key x) (dict_get sd x (JInt 0)) row)"
  from Cons.prems d have "fill_row xs s (JObj ed) ?r = Inr row'" by simp
  from Cons.IH[OF this] show ?case by (auto simp: update_conv')
qed


lemma fill_row_keys:
  assumes "fill_row cl s e row = Inr row'"
    and "map fst row = base @ concat (map criterion_keys done)"
    and "set base \<subseteq> fixed_keys"
  shows "map fst row' = base @ concat (map criterion_keys (done @ first_seen done cl))"
  using assms
proof (induction cl arbitrary: row "done")
  case Nil then show ?case by simp
next
  case (Cons x xs)
  from Cons.prems obtain sd ed where d: "s = JObj sd" "e = JObj ed"
    using fill_row_dicts by blast
  let ?r = "AList.update (explanation_key x) (dict_get ed x (JStr ''No explanation provided''))
              (AList.update (score_key x) (dict_get sd x (JInt 0)) row)"
  from Cons.prems d have run: "fill_row xs s e ?r = Inr row'" by simp
  have keys: "set (map fst row) = set base \<union> score_key ` set done \<union> explanation_key ` set done"
    unfolding Cons.prems(2) by (auto simp: criterion_keys_def[abs_def])
  show ?case
  proof (cases "x \<in> set done")
    case True
    then have "score_key x \<in> set (map fst row)" "explanation_key x \<in> set (map fst row)"
      unfolding keys by auto
    then have "map fst ?r = base @ concat (map criterion_keys done)"
      by (simp add: update_keys Cons.prems(2))
    from Cons.IH[OF run this Cons.prems(3)] True show ?thesis by simp
  next
    case False
    have nb: "score_key x \<notin> set base" "explanation_key x \<notin> set base"
      using Cons.prems(3) by auto
    have "score_key x \<notin> set (map fst row)" "explanation_key x \<notin> set (map fst row)"
      unfolding keys using False nb by auto
    then have "map fst ?r = base @ concat (map criterion_keys (done @ [x]))"
      by (simp add: update_keys Cons.prems(2) criterion_keys_def[of x])
    from Cons.IH[OF run this Cons.prems(3)]
    have "map fst row' =
            base @ concat (map criterion_keys ((done @ [x]) @ first_seen (done @ [x]) xs))" .
    moreover have "first_seen (done @ [x]) xs = first_seen (x # done) xs"
      by (rule first_seen_set_cong) auto
    ultimately show ?thesis using False by simp
  qed
qed

text \<open>What a successful \<open>build_row\<close> went through.\<close>

lemma build_row_InrD:
  assumes "build_row E cl fname result = Inr row"
  obtains rd row1 tot avg where
    "result = JObj rd"
    "fill_row cl (dict_get rd ''scores'' (JObj [])) (dict_get rd ''explanations'' (JObj []))
       [(''Filename'', JStr fname), (''Candidate Name'', dict_get rd ''name'' (JStr ''Unknown''))]
     = Inr row1"
    "sum_values E (dict_get rd ''scores'' (JObj [])) = Inr tot"
    "truediv E tot (length cl) = Inr avg"
    "row = AList.update ''Average Score'' (JFloat (round2 E avg))
             (AList.update ''Total Score'' (num_json tot) row1)"
  using assms unfolding build_row_def
  by (auto simp: Let_def split: json.splits sum.splits)

lemma build_row_keys:
  assumes "build_row E cl fname result = Inr row"
  shows "map fst row =
           [''Filename'', ''Candidate Name''] @ concat (map criterion_keys (first_seen [] cl))
             @ [''Total Score'', ''Average Score'']"
proof -
  from assms obtain rd row1 tot avg where
    fr: "fill_row cl (dict_get rd ''scores'' (JObj [])) (dict_get rd ''explanations'' (JObj []))
       [(''Filename'', JStr fname), (''Candidate Name'', dict_get rd ''name'' (JStr ''Unknown''))]
     = Inr row1"
    and row: "row = AList.update ''Average Score'' (JFloat (round2 E avg))
             (AList.update ''Total Score'' (num_json tot) row1)"
    by (rule build_row_InrD)
  have k1: "map fst row1 =
      [''Filename'', ''Candidate Name''] @ concat (map criterion_keys ([] @ first_seen [] cl))"
    by (rule fill_row_keys[OF fr]) (simp_all add: fixed_keys_def)
  have ks: "fst ` set row1 = {''Filename'', ''Candidate Name''} \<union> score_key ` set cl
              \<union> explanation_key ` set cl"
    using fill_row_keyset[OF fr] by auto
  have "''Total Score'' \<in> fixed_keys" "''Average Score'' \<in> fixed_keys"
    by (simp_all add: fixed_keys_def)
  then have n: "''Total Score'' \<notin> fst ` set row1" "''Average Score'' \<notin> fst ` set row1"
    unfolding ks using score_key_not_fixed explanation_key_not_fixed by auto
  have n1: "''Total Score'' \<notin> set (map fst row1)" using n(1) by simp
  have k2: "map fst (AList.update ''Total Score'' (num_json tot) row1) =
              map fst row1 @ [''Total Score'']"
    using n1 by (simp only: update_keys if_False)
  have n2: "''Average Score'' \<notin> set (map fst (AList.update ''Total Score'' (num_json tot) row1))"
    unfolding k2 using n(2) by simp
  have "map fst row = (map fst row1 @ [''Total Score'']) @ [''Average Score'']"
    unfolding row using n2 k2 by (simp only: update_keys if_False)
  then show ?thesis unfolding k1 by simp
qed

lemma criterion_keys_distinct:
  "distinct cs \<Longrightarrow> distinct (concat (map criterion_keys cs))"
  by (induction cs) (auto simp: criterion_keys_def)

lemma set_criterion_keys:
  "set (concat (map criterion_keys cs)) = score_key ` set cs \<union> explanation_key ` set cs"
  by (induction cs) (auto simp: criterion_keys_def)

lemma fixed_not_criterion_key:
  "k \<in> fixed_keys \<Longrightarrow> k \<notin> set (concat (map criterion_keys cs))"
  unfolding set_criterion_keys by auto

lemma build_row_distinct:
  assumes "build_row E cl fname result = Inr row"
  shows "distinct (map fst row)"
proof -
  have f: "''Filename'' \<in> fixed_keys" "''Candidate Name'' \<in> fixed_keys"
    "''Total Score'' \<in> fixed_keys" "''Average Score'' \<in> fixed_keys"
    by (simp_all add: fixed_keys_def)
  show ?thesis
    unfolding build_row_keys[OF assms]
    using f[THEN fixed_not_criterion_key, of "first_seen [] cl"]
    by (simp add: criterion_keys_distinct first_seen_is_distinct)
qed

lemma build_row_keyset:
  assumes "build_row E cl fname result = Inr row"
  shows "fst ` set row = fixed_keys \<union> score_key ` set cl \<union> explanation_key ` set cl"
proof -
  have "fst ` set row = set (map fst row)" by simp
  also have "\<dots> = fixed_keys \<union> score_key ` set cl \<union> explanation_key ` set cl"
    unfolding build_row_keys[OF assms]
    by (auto simp: set_criterion_keys first_seen_set fixed_keys_def simp del: set_concat)
  finally show ?thesis .
qed


section \<open>The loop over the documents\<close>

lemma length_outcomes [simp]: "length (outcomes E cl tr files) = length files"
  by (induction files arbitrary: tr) (auto split: prod.splits)

lemma process_files_outcomes:
  "\<exists>tr'. process_files E cl files (rows, errors, tr) =
     (rows @ map snd (succeeded files (outcomes E cl tr files)),
      errors @ map (\<lambda>(file, e). error_entry E file e) (failed files (outcomes E cl tr files)),
      tr')"
proof (induction files arbitrary: rows errors tr)
  case Nil show ?case by simp
next
  case (Cons f fs)
  obtain r tr1 where pf: "process_file E cl tr f = (r, tr1)" by (cases "process_file E cl tr f")
  show ?case
  proof (cases r)
    case (Inl e)
    from Cons.IH[of rows "errors @ [error_entry E f e]" tr1] pf Inl show ?thesis by auto
  next
    case (Inr row)
    from Cons.IH[of "rows @ [row]" errors tr1] pf Inr show ?thesis by auto
  qed
qed

lemma process_files_rows:
  "process_files E cl files ([], [], []) = (rows, errors, tr) \<Longrightarrow>
   rows = map snd (succeeded files (outcomes E cl [] files))"
  using process_files_outcomes[of E cl files "[]" "[]" "[]"] by auto

lemma process_files_errors:
  "process_files E cl files ([], [], []) = (rows, errors, tr) \<Longrightarrow>
   errors = map (\<lambda>(file, e). error_entry E file e) (failed files (outcomes E cl [] files))"
  using process_files_outcomes[of E cl files "[]" "[]" "[]"] by auto


lemma length_failed:
  "length files = length rs \<Longrightarrow> length (failed files rs) = length (filter isl rs)"
  by (induction files rs rule: failed.induct) auto


lemma succeeded_Nil_iff:
  "length files = length rs \<Longrightarrow> succeeded files rs = [] \<longleftrightarrow> (\<forall>r \<in> set rs. isl r)"
  by (induction files rs rule: succeeded.induct) auto

lemma process_file_Inr:
  assumes "process_file E cl tr file = (Inr row, tr')"
  shows "\<exists>text result. extract_text_from_file E file = Inr text
           \<and> evaluate_resume E (tr @ [FileRead (filename file)]) text cl = Inr result
           \<and> build_row E cl (filename file) result = Inr row"
  using assms unfolding process_file_def
  by (auto simp: Let_def split: sum.splits)

lemma succeeded_built:
  "(file, row) \<in> set (succeeded files (outcomes E cl tr files)) \<Longrightarrow>
   \<exists>result. build_row E cl (filename file) result = Inr row"
proof (induction files arbitrary: tr)
  case Nil then show ?case by simp
next
  case (Cons f fs)
  obtain r tr1 where pf: "process_file E cl tr f = (r, tr1)" by (cases "process_file E cl tr f")
  show ?case
  proof (cases r)
    case (Inl e)
    with Cons pf show ?thesis by auto
  next
    case (Inr row1)
    with Cons.prems pf have "(file, row) = (f, row1)
        \<or> (file, row) \<in> set (succeeded fs (outcomes E cl tr1 fs))" by auto
    then show ?thesis
    proof
      assume "(file, row) = (f, row1)"
      with process_file_Inr[of E cl tr f row1 tr1] pf Inr show ?thesis by auto
    next
      assume "(file, row) \<in> set (succeeded fs (outcomes E cl tr1 fs))"
      then show ?thesis by (rule Cons.IH)
    qed
  qed
qed


lemma find_None_accepted:
  "find (\<lambda>file. \<not> accepted_name (filename file)) files = None
     \<longleftrightarrow> (\<forall>file \<in> set files. accepted_name (filename file))"
  by (auto simp: find_None_iff)

lemma score_resumes_accepted:
  assumes "files \<noteq> []" and "\<forall>file \<in> set files. accepted_name (filename file)"
    and "process_files E cl files ([], [], []) = (rows, errors, tr)"
  shows "score_resumes E cl files =
           (if rows = [] then (Inl (HTTPException 400 (msg_all_failed errors)), tr)
            else (Inr (report rows), tr))"
  using assms find_None_accepted[of files]
  by (simp add: score_resumes_def)

section \<open>Totals\<close>

lemma py_sum_from_ints:
  "py_sum_from E (AInt a) (map JInt xs) = Inr (AInt (a + sum_list xs))"
  by (induction xs arbitrary: a) (auto simp: algebra_simps)

lemma sum_values_ints:
  "sum_values E (JObj sd) = Inr tot \<Longrightarrow> dict_values sd = map JInt xs \<Longrightarrow> tot = NInt (sum_list xs)"
  by (simp add: sum_values_def py_sum_from_ints)

lemma build_row_total:
  assumes "build_row E cl fname result = Inr row"
  shows "\<exists>rd tot avg. result = JObj rd
           \<and> sum_values E (dict_get rd ''scores'' (JObj [])) = Inr tot
           \<and> truediv E tot (length cl) = Inr avg
           \<and> map_of row ''Total Score'' = Some (num_json tot)
           \<and> map_of row ''Average Score'' = Some (JFloat (round2 E avg))"
proof -
  from assms obtain rd row1 tot avg where
    "result = JObj rd"
    "sum_values E (dict_get rd ''scores'' (JObj [])) = Inr tot"
    "truediv E tot (length cl) = Inr avg"
    "row = AList.update ''Average Score'' (JFloat (round2 E avg))
             (AList.update ''Total Score'' (num_json tot) row1)"
    by (rule build_row_InrD)
  then show ?thesis by (auto simp: update_conv')
qed

text \<open>
  C1. The claim: the row's Total Score is the sum of the row's own per-criterion scores,
  the oracle's keys outside the criteria list left out. The code sums every value of
  the oracle's \<open>scores\<close> map (\<open>build_row_total\<close>): with the criterion \<open>a\<close> and the
  oracle's scores \<open>a: 3, b: 2\<close>, the row has the score 3 for \<open>a\<close>, no column for \<open>b\<close>,
  and the Total Score 5.
\<close>

theorem total_score_counts_dropped_keys:
  "build_row demo [''a''] ''bob.pdf'' extra_result = Inr bob_row
   \<and> map fst bob_row =
       [''Filename'', ''Candidate Name'', ''a (Score)'', ''a (Explanation)'',
        ''Total Score'', ''Average Score'']
   \<and> map_of bob_row ''a (Score)'' = Some (JInt 3)
   \<and> map_of bob_row ''Total Score'' = Some (JInt 5)"
  by code_simp

section \<open>Row keys\<close>

lemma build_row_values:
  assumes "build_row E cl fname (JObj rd) = Inr row" and "c \<in> set cl"
  shows "\<exists>sd ed. dict_get rd ''scores'' (JObj []) = JObj sd
           \<and> dict_get rd ''explanations'' (JObj []) = JObj ed
           \<and> map_of row (score_key c) = Some (case map_of sd c of Some v \<Rightarrow> v | None \<Rightarrow> JInt 0)
           \<and> map_of row (explanation_key c) =
               Some (case map_of ed c of Some v \<Rightarrow> v | None \<Rightarrow> JStr ''No explanation provided'')"
proof -
  from assms(1) obtain rd' row1 tot avg where
    rd: "JObj rd = JObj rd'"
    and fr: "fill_row cl (dict_get rd' ''scores'' (JObj [])) (dict_get rd' ''explanations'' (JObj []))
       [(''Filename'', JStr fname), (''Candidate Name'', dict_get rd' ''name'' (JStr ''Unknown''))]
     = Inr row1"
    and row: "row = AList.update ''Average Score'' (JFloat (round2 E avg))
             (AList.update ''Total Score'' (num_json tot) row1)"
    by (rule build_row_InrD)
  from rd have [simp]: "rd' = rd" by simp
  from assms(2) have ne: "cl \<noteq> []" by auto
  from fill_row_dicts[OF fr ne] obtain sd ed where
    d: "dict_get rd ''scores'' (JObj []) = JObj sd" "dict_get rd ''explanations'' (JObj []) = JObj ed"
    by auto
  have s: "map_of row1 (score_key c) = Some (dict_get sd c (JInt 0))"
    using fill_row_score[of cl sd _ _ row1 c] fr d assms(2) by simp
  have e: "map_of row1 (explanation_key c) = Some (dict_get ed c (JStr ''No explanation provided''))"
    using fill_row_explanation[of cl _ ed _ row1 c] fr d assms(2) by simp
  have f: "''Total Score'' \<in> fixed_keys" "''Average Score'' \<in> fixed_keys"
    by (simp_all add: fixed_keys_def)
  have n: "score_key c \<noteq> ''Total Score''" "score_key c \<noteq> ''Average Score''"
    "explanation_key c \<noteq> ''Total Score''" "explanation_key c \<noteq> ''Average Score''"
    using f score_key_not_fixed[of c] explanation_key_not_fixed[of c] by metis+
  have "map_of row (score_key c) = map_of row1 (score_key c)"
    "map_of row (explanation_key c) = map_of row1 (explanation_key c)"
    unfolding row using n by (simp_all add: update_conv')
  with s e d show ?thesis by (auto simp: dict_get_def)
qed

lemma build_row_score_keys:
  assumes "build_row E cl fname result = Inr row"
  shows "{c. score_key c \<in> fst ` set row} = set cl"
    and "{c. explanation_key c \<in> fst ` set row} = set cl"
  unfolding build_row_keyset[OF assms] by auto

lemma process_files_append:
  "process_files E cl (a @ b) st = process_files E cl b (process_files E cl a st)"
  by (induction E cl a st rule: process_files.induct) (auto split: prod.splits sum.splits)

text \<open>
  Where a row of a batch comes from: a document of the batch, processed from the trace
  that the documents before it have left.
\<close>

lemma row_origin:
  "process_files E cl files ([], [], []) = (rows, errors, tr) \<Longrightarrow> row \<in> set rows \<Longrightarrow>
   \<exists>bef f aft rows0 errors0 tr0 tr1.
      files = bef @ f # aft
    \<and> process_files E cl bef ([], [], []) = (rows0, errors0, tr0)
    \<and> process_file E cl tr0 f = (Inr row, tr1)"
proof (induction files arbitrary: rows errors tr rule: rev_induct)
  case Nil then show ?case by simp
next
  case (snoc g gs)
  obtain rows0 errors0 tr0 where p0: "process_files E cl gs ([], [], []) = (rows0, errors0, tr0)"
    by (cases "process_files E cl gs ([], [], [])") auto
  obtain r tr1 where pf: "process_file E cl tr0 g = (r, tr1)"
    by (cases "process_file E cl tr0 g")
  have step: "process_files E cl (gs @ [g]) ([], [], []) =
                process_files E cl [g] (rows0, errors0, tr0)"
    by (simp add: process_files_append p0)
  show ?case
  proof (cases "row \<in> set rows0")
    case True
    from snoc.IH[OF p0 True] obtain bef f aft r0 e0 t0 t1 where
      "gs = bef @ f # aft" "process_files E cl bef ([], [], []) = (r0, e0, t0)"
      "process_file E cl t0 f = (Inr row, t1)" by blast
    then have "gs @ [g] = bef @ f # (aft @ [g])
               \<and> process_files E cl bef ([], [], []) = (r0, e0, t0)
               \<and> process_file E cl t0 f = (Inr row, t1)" by simp
    then show ?thesis by blast
  next
    case False
    have "r = Inr row"
    proof (cases r)
      case (Inl e)
      with snoc.prems(1) step pf have "rows = rows0" by simp
      with False snoc.prems(2) show ?thesis by simp
    next
      case (Inr row')
      with snoc.prems(1) step pf have "rows = rows0 @ [row']" by simp
      with False snoc.prems(2) Inr show ?thesis by simp
    qed
    with pf p0 have "gs @ [g] = gs @ g # []
               \<and> process_files E cl gs ([], [], []) = (rows0, errors0, tr0)
               \<and> process_file E cl tr0 g = (Inr row, tr1)" by simp
    then show ?thesis by blast
  qed
qed

text \<open>
  C2. Every row of a batch is the row of one of its documents: the text of that
  document was extracted, \<open>evaluate_resume\<close>, called from the trace the documents before
  it had left, returned a dict, and the row was built from that very dict. Whatever
  the dict held, the row has a score entry and an explanation entry for exactly the
  criteria of the list: its keys are the four fixed ones and the two keys of each
  criterion, each once; the score of a criterion is the one in the returned dict, or 0
  where the dict has none, and the explanation is the one in the returned dict, or
  "No explanation provided".
\<close>

theorem row_keys_are_the_criteria:
  assumes "process_files E cl files ([], [], []) = (rows, errors, tr)" and "row \<in> set rows"
  shows "\<exists>bef f aft rows0 errors0 tr0 text rd.
             files = bef @ f # aft
           \<and> process_files E cl bef ([], [], []) = (rows0, errors0, tr0)
           \<and> extract_text_from_file E f = Inr text
           \<and> evaluate_resume E (tr0 @ [FileRead (filename f)]) text cl = Inr (JObj rd)
           \<and> build_row E cl (filename f) (JObj rd) = Inr row
           \<and> {c. score_key c \<in> fst ` set row} = set cl
           \<and> {c. explanation_key c \<in> fst ` set row} = set cl
           \<and> fst ` set row = fixed_keys \<union> score_key ` set cl \<union> explanation_key ` set cl
           \<and> distinct (map fst row)
           \<and> (\<forall>c \<in> set cl. \<exists>sd ed.
                 dict_get rd ''scores'' (JObj []) = JObj sd
               \<and> dict_get rd ''explanations'' (JObj []) = JObj ed
               \<and> map_of row (score_key c) =
                   Some (case map_of sd c of Some v \<Rightarrow> v | None \<Rightarrow> JInt 0)
               \<and> map_of row (explanation_key c) =
                   Some (case map_of ed c of Some v \<Rightarrow> v
                         | None \<Rightarrow> JStr ''No explanation provided''))"
proof -
  from row_origin[OF assms] obtain bef f aft rows0 errors0 tr0 tr1 where
    o: "files = bef @ f # aft" "process_files E cl bef ([], [], []) = (rows0, errors0, tr0)"
    and pf: "process_file E cl tr0 f = (Inr row, tr1)" by blast
  from process_file_Inr[OF pf] obtain body result where
    ex: "extract_text_from_file E f = Inr body"
    and ev: "evaluate_resume E (tr0 @ [FileRead (filename f)]) body cl = Inr result"
    and b: "build_row E cl (filename f) result = Inr row" by blast
  from b obtain rd where rd: "result = JObj rd" by (auto elim: build_row_InrD)
  note b' = b[unfolded rd] and ev' = ev[unfolded rd]
  have v: "\<forall>c \<in> set cl. \<exists>sd ed.
                 dict_get rd ''scores'' (JObj []) = JObj sd
               \<and> dict_get rd ''explanations'' (JObj []) = JObj ed
               \<and> map_of row (score_key c) =
                   Some (case map_of sd c of Some v \<Rightarrow> v | None \<Rightarrow> JInt 0)
               \<and> map_of row (explanation_key c) =
                   Some (case map_of ed c of Some v \<Rightarrow> v
                         | None \<Rightarrow> JStr ''No explanation provided'')"
    using build_row_values[OF b'] by blast
  from o ex ev' b' build_row_score_keys[OF b'] build_row_keyset[OF b'] build_row_distinct[OF b'] v
  show ?thesis by blast
qed

theorem row_keys_are_the_criteria_witness:
  "process_files demo [''a'', ''c''] [cv_upper, cv_extra] ([], [], []) =
     ([bob_row_ac],
      [''Error processing resume.PDF: Unsupported file type. Only PDF and DOCX are allowed.''],
      [FileRead ''resume.PDF'', FileRead ''bob.pdf'', OracleCall ''extra'' [''a'', ''c'']])
   \<and> evaluate_resume demo [FileRead ''resume.PDF'', FileRead ''bob.pdf''] ''extra'' [''a'', ''c'']
       = Inr extra_result
   \<and> map_of bob_row_ac ''c (Score)'' = Some (JInt 0)
   \<and> map_of bob_row_ac ''c (Explanation)'' = Some (JStr ''No explanation provided'')
   \<and> map_of bob_row_ac ''b (Score)'' = None
   \<and> {c. score_key c \<in> fst ` set bob_row_ac} = {''a'', ''c''}"
proof -
  have h: "process_files demo [''a'', ''c''] [cv_upper, cv_extra] ([], [], []) =
     ([bob_row_ac],
      [''Error processing resume.PDF: Unsupported file type. Only PDF and DOCX are allowed.''],
      [FileRead ''resume.PDF'', FileRead ''bob.pdf'', OracleCall ''extra'' [''a'', ''c'']])"
    by code_simp
  have m: "bob_row_ac \<in> set [bob_row_ac]" by simp
  have e: "evaluate_resume demo [FileRead ''resume.PDF'', FileRead ''bob.pdf''] ''extra''
             [''a'', ''c''] = Inr extra_result"
    by code_simp
  have v: "map_of bob_row_ac ''c (Score)'' = Some (JInt 0)"
    "map_of bob_row_ac ''c (Explanation)'' = Some (JStr ''No explanation provided'')"
    "map_of bob_row_ac ''b (Score)'' = None"
    by code_simp+
  from row_keys_are_the_criteria[OF h m]
  have "{c. score_key c \<in> fst ` set bob_row_ac} = set [''a'', ''c'']" by blast
  with h e v show ?thesis by simp
qed

section \<open>Normalizing the criteria\<close>

lemma parse_criteria_text:
  "parse_criteria E (RawStr s) =
     (case loads E s of
        Inl e \<Rightarrow> Inl (criteria_handler E e)
      | Inr (JObj d) \<Rightarrow>
          (case map_of d ''criteria'' of
             Some v \<Rightarrow> Inr v
           | None \<Rightarrow> Inl (ValueError (''Error parsing criteria: '' @ msg_json_key)))
      | Inr _ \<Rightarrow> Inl (ValueError (''Error parsing criteria: '' @ msg_json_key)))"
  by (auto simp: parse_criteria_def dict_has_def dict_get_def split: sum.splits json.splits option.splits)

text \<open>
  C3. The claim: a JSON text whose value under \<open>criteria\<close> is not a sequence of strings
  is refused with the schema error. The code looks only for the key
  (\<open>parse_criteria_text\<close>), although its own message asks for "a 'criteria' key with an
  array value": the text \<^verbatim>\<open>{"criteria": 5}\<close> is accepted and the number 5 is returned as
  the criteria list.
\<close>

theorem parse_criteria_returns_a_number:
  "loads demo criteria_5_text = Inr (JObj [(''criteria'', JInt 5)])
   \<and> parse_criteria demo (RawStr criteria_5_text) = Inr (JInt 5)"
  by code_simp

text \<open>
  C7. Where \<^verbatim>\<open>json.loads\<close> reads the text that encodes the object with the one key
  \<open>criteria\<close> and the list \<open>L\<close> back as that object, normalizing the text gives \<open>L\<close>
  itself, every element in its place.
\<close>

theorem criteria_round_trip:
  assumes "loads E (dumps (JObj [(''criteria'', JList (map JStr L))]))
             = Inr (JObj [(''criteria'', JList (map JStr L))])"
  shows "parse_criteria E (RawStr (dumps (JObj [(''criteria'', JList (map JStr L))])))
           = Inr (JList (map JStr L))"
  using assms by (simp add: parse_criteria_text)

theorem criteria_round_trip_witness:
  "loads demo criteria_ab_text = Inr (JObj [(''criteria'', JList (map JStr [''a'', ''b'']))])
   \<and> parse_criteria demo (RawStr criteria_ab_text) = Inr (JList [JStr ''a'', JStr ''b''])"
proof -
  have h: "loads demo ((\<lambda>v. criteria_ab_text) (JObj [(''criteria'', JList (map JStr [''a'', ''b'']))]))
             = Inr (JObj [(''criteria'', JList (map JStr [''a'', ''b'']))])"
    by code_simp
  from criteria_round_trip[of demo "\<lambda>v. criteria_ab_text" "[''a'', ''b'']", OF h] h
  show ?thesis by simp
qed

section \<open>Evaluation\<close>

text \<open>
  C9, as the claim states it, fails: the oracle's answer \<open>list\<close> decodes to the JSON
  array \<^verbatim>\<open>[]\<close>, which is no object with name, scores and explanations, and
  \<open>evaluate_resume\<close> returns it.
\<close>

theorem evaluate_resume_returns_any_json:
  "chat demo [] ''list'' [''a''] = Inr ''list''
   \<and> loads demo ''list'' = Inr (JList [])
   \<and> evaluate_resume demo [] ''list'' [''a''] = Inr (JList [])"
  by code_simp

text \<open>
  C9, amended. \<open>evaluate_resume\<close> fails exactly when the oracle call raises or its answer
  is not JSON, with a \<open>ValueError\<close> "Error evaluating resume: " followed by the cause;
  in every other case it returns the decoded value, whatever its shape. A failure is
  caught by the loop of the batch: it appends the entry for the file to the errors and
  goes on with the next file.
\<close>

theorem evaluate_resume_fails_on_transport_or_decoding:
  "(case evaluate_resume E tr text cl of
      Inl e \<Rightarrow> \<exists>cause. e = ValueError (''Error evaluating resume: '' @ exc_str E cause)
                 \<and> (chat E tr text cl = Inl cause
                      \<or> (\<exists>answer. chat E tr text cl = Inr answer \<and> loads E answer = Inl cause))
    | Inr v \<Rightarrow> \<exists>answer. chat E tr text cl = Inr answer \<and> loads E answer = Inr v)
   \<and> (\<forall>text e. extract_text_from_file E file = Inr text
         \<and> evaluate_resume E (tr @ [FileRead (filename file)]) text cl = Inl e
       \<longrightarrow> process_files E cl (file # rest) (rows, errors, tr) =
             process_files E cl rest
               (rows, errors @ [''Error processing '' @ filename file @ '': '' @ exc_str E e],
                tr @ [FileRead (filename file), OracleCall text cl]))"
  by (auto simp: evaluate_resume_def process_file_def error_entry_def Let_def split: sum.splits)

theorem evaluate_resume_fails_on_transport_or_decoding_witness:
  "extract_text_from_file demo \<lparr>filename = ''x.pdf'', content = ''nonsense''\<rparr> = Inr ''nonsense''
   \<and> evaluate_resume demo ([] @ [FileRead ''x.pdf'']) ''nonsense'' [''a'']
       = Inl (ValueError ''Error evaluating resume: Expecting value: line 1 column 1 (char 0)'')
   \<and> process_files demo [''a''] [\<lparr>filename = ''x.pdf'', content = ''nonsense''\<rparr>, cv_extra] ([], [], [])
       = process_files demo [''a''] [cv_extra]
           ([], [''Error processing x.pdf: Error evaluating resume: Expecting value: line 1 column 1 (char 0)''],
            [FileRead ''x.pdf'', OracleCall ''nonsense'' [''a'']])"
proof -
  let ?f = "\<lparr>filename = ''x.pdf'', content = ''nonsense''\<rparr>"
  let ?e = "ValueError ''Error evaluating resume: Expecting value: line 1 column 1 (char 0)''"
  have h1: "extract_text_from_file demo ?f = Inr ''nonsense''" by code_simp
  have h2: "evaluate_resume demo ([] @ [FileRead (filename ?f)]) ''nonsense'' [''a''] = Inl ?e"
    by code_simp
  from evaluate_resume_fails_on_transport_or_decoding[of demo "[]" _ "[''a'']" ?f "[cv_extra]" "[]" "[]"]
  have "\<forall>text e. extract_text_from_file demo ?f = Inr text
         \<and> evaluate_resume demo ([] @ [FileRead (filename ?f)]) text [''a''] = Inl e
       \<longrightarrow> process_files demo [''a''] (?f # [cv_extra]) ([], [], []) =
             process_files demo [''a''] [cv_extra]
               ([], [] @ [''Error processing '' @ filename ?f @ '': '' @ exc_str demo e],
                [] @ [FileRead (filename ?f), OracleCall text [''a'']])"
    by (rule conjunct2)
  with h1 h2 have "process_files demo [''a''] (?f # [cv_extra]) ([], [], []) =
             process_files demo [''a''] [cv_extra]
               ([], [] @ [''Error processing '' @ filename ?f @ '': '' @ exc_str demo ?e],
                [] @ [FileRead (filename ?f), OracleCall ''nonsense'' [''a'']])"
    by blast
  with h1 h2 show ?thesis by simp
qed


section \<open>The batch\<close>

lemma find_first:
  "\<forall>y \<in> set ys. \<not> P y \<Longrightarrow> P x \<Longrightarrow> find P (ys @ x # zs) = Some x"
  by (induction ys) auto

text \<open>
  C8. A batch with a file whose name does not end in \<open>.pdf\<close> or \<open>.docx\<close>, letter case
  aside, is refused with the 400 error that names the first such file, whatever the
  other files are; the trace is empty, so no file has been read and the oracle has
  not been called, and there are neither rows nor per-document errors.
\<close>

theorem unsupported_name_rejects_the_batch:
  assumes "\<exists>file \<in> set files. \<not> accepted_name (filename file)"
  shows "\<exists>before file after.
           files = before @ file # after
         \<and> (\<forall>g \<in> set before. accepted_name (filename g))
         \<and> \<not> accepted_name (filename file)
         \<and> score_resumes E cl files =
             (Inl (HTTPException 400
                (''Unsupported file format for '' @ filename file
                   @ ''. Only PDF and DOCX files are accepted.'')), [])"
proof -
  from split_list_first_prop[OF assms] obtain bef f aft where
    s: "files = bef @ f # aft" "\<not> accepted_name (filename f)"
       "\<forall>g \<in> set bef. \<not> \<not> accepted_name (filename g)"
    by blast
  have "find (\<lambda>file. \<not> accepted_name (filename file)) files = Some f"
    unfolding s(1) using s(2,3) by (intro find_first) auto
  then have "score_resumes E cl files =
      (Inl (HTTPException 400 (msg_unsupported_format (filename f))), [])"
    using s(1) by (simp add: score_resumes_def)
  with s show ?thesis unfolding msg_unsupported_format_def by blast
qed

theorem unsupported_name_rejects_the_batch_witness:
  "score_resumes demo [''a''] [cv_extra, cv_txt, cv_words] =
     (Inl (HTTPException 400
        ''Unsupported file format for notes.txt. Only PDF and DOCX files are accepted.''), [])"
proof -
  have n: "\<not> accepted_name (filename cv_txt)" by code_simp
  have a: "accepted_name (filename cv_extra)" by code_simp
  have h: "\<exists>file \<in> set [cv_extra, cv_txt, cv_words]. \<not> accepted_name (filename file)"
    using n by simp
  from unsupported_name_rejects_the_batch[OF h, of demo "[''a'']"]
  obtain bef f aft where
    s: "[cv_extra, cv_txt, cv_words] = bef @ f # aft"
       "\<forall>g \<in> set bef. accepted_name (filename g)"
       "\<not> accepted_name (filename f)"
       "score_resumes demo [''a''] [cv_extra, cv_txt, cv_words] =
             (Inl (HTTPException 400
                (''Unsupported file format for '' @ filename f
                   @ ''. Only PDF and DOCX files are accepted.'')), [])"
    by blast
  have "bef \<noteq> []" using s(1,3) a by (cases bef) auto
  moreover have "length bef < 2"
  proof (rule ccontr)
    assume "\<not> length bef < 2"
    then obtain x y r where "bef = x # y # r" by (cases bef; cases "tl bef") auto
    with s(1,2) n show False by auto
  qed
  ultimately have "bef = [cv_extra]" using s(1) by (cases bef; cases "tl bef") auto
  with s(1) have "f = cv_txt" by simp
  with s(4) show ?thesis by (simp add: cv_txt_def)
qed

lemma process_file_unsupported:
  assumes "\<not> endswith (filename file) ''.pdf''" and "\<not> endswith (filename file) ''.docx''"
  shows "process_file E cl tr file =
           (Inl (HTTPException 400 msg_unsupported_type), tr @ [FileRead (filename file)])"
  using assms by (simp add: process_file_def extract_text_from_file_def)

lemma succeeded_member: "(f, row) \<in> set (succeeded files rs) \<Longrightarrow> f \<in> set files"
  by (induction files rs rule: succeeded.induct) auto

lemma process_file_trace:
  "\<exists>ev. snd (process_file E cl tr file) = tr @ FileRead (filename file) # ev"
  by (auto simp: process_file_def Let_def split: sum.splits)

lemma process_files_trace:
  "process_files E cl files (rows, errors, tr) = (rows', errors', tr') \<Longrightarrow>
   set tr \<subseteq> set tr' \<and> (\<forall>f \<in> set files. FileRead (filename f) \<in> set tr')"
proof (induction files arbitrary: rows errors tr)
  case Nil then show ?case by simp
next
  case (Cons f fs)
  obtain r tr1 where pf: "process_file E cl tr f = (r, tr1)" by (cases "process_file E cl tr f")
  from process_file_trace[of E cl tr f] pf obtain ev where
    tr1: "tr1 = tr @ FileRead (filename f) # ev" by auto
  show ?case
  proof (cases r)
    case (Inl e)
    with Cons.prems pf have
      "process_files E cl fs (rows, errors @ [error_entry E f e], tr1) = (rows', errors', tr')"
      by simp
    from Cons.IH[OF this] tr1 show ?thesis by auto
  next
    case (Inr row)
    with Cons.prems pf have
      "process_files E cl fs (rows @ [row], errors, tr1) = (rows', errors', tr')"
      by simp
    from Cons.IH[OF this] tr1 show ?thesis by auto
  qed
qed

lemma outcomes_of_member:
  assumes "file \<in> set files"
    and "\<And>tr. process_file E cl tr file = (Inl e, tr @ [FileRead (filename file)])"
  shows "(file, e) \<in> set (failed files (outcomes E cl tr files))
         \<and> (\<forall>row. (file, row) \<notin> set (succeeded files (outcomes E cl tr files)))"
  using assms(1)
proof (induction files arbitrary: tr)
  case Nil then show ?case by simp
next
  case (Cons f fs)
  obtain r tr1 where pf: "process_file E cl tr f = (r, tr1)" by (cases "process_file E cl tr f")
  show ?case
  proof (cases "f = file")
    case True
    with pf assms(2)[of tr] have r: "r = Inl e" by simp
    have "\<forall>row. (file, row) \<notin> set (succeeded fs (outcomes E cl tr1 fs))"
    proof (cases "file \<in> set fs")
      case True with Cons.IH show ?thesis by blast
    next
      case False
      then show ?thesis by (blast dest: succeeded_member)
    qed
    with True pf r show ?thesis by simp
  next
    case False
    with Cons.prems have "file \<in> set fs" by simp
    from Cons.IH[OF this, of tr1] False pf show ?thesis by (cases r) auto
  qed
qed

text \<open>
  C10. A file whose name passes the check of the batch but does not end in \<open>.pdf\<close> or
  \<open>.docx\<close> in lower case does not stop the batch: the loop runs, the file is read,
  extraction raises the 400 "Unsupported file type" error, the loop records it as the
  error of that file, and the file gives no row.
\<close>

theorem upper_case_extension_fails_in_the_loop:
  assumes "file \<in> set files"
    and "list_all (\<lambda>g. accepted_name (filename g)) files"
    and "\<not> endswith (filename file) ''.pdf''" and "\<not> endswith (filename file) ''.docx''"
    and "process_files E cl files ([], [], []) = (rows, errors, tr)"
  shows "score_resumes E cl files =
           (if rows = [] then (Inl (HTTPException 400 (msg_all_failed errors)), tr)
            else (Inr (report rows), tr))
       \<and> extract_text_from_file E file = Inl (HTTPException 400 msg_unsupported_type)
       \<and> (''Error processing '' @ filename file @ '': '' @ http_str E 400 msg_unsupported_type)
           \<in> set errors
       \<and> (file, HTTPException 400 msg_unsupported_type)
           \<in> set (failed files (outcomes E cl [] files))
       \<and> (\<forall>row. (file, row) \<notin> set (succeeded files (outcomes E cl [] files)))
       \<and> FileRead (filename file) \<in> set tr"
proof -
  from assms(1) have ne: "files \<noteq> []" by auto
  from assms(2) have acc: "\<forall>g \<in> set files. accepted_name (filename g)"
    by (simp add: list_all_iff)
  note gate = score_resumes_accepted[OF ne acc assms(5)]
  have ex: "extract_text_from_file E file = Inl (HTTPException 400 msg_unsupported_type)"
    using assms(3,4) by (simp add: extract_text_from_file_def)
  have m: "(file, HTTPException 400 msg_unsupported_type)
             \<in> set (failed files (outcomes E cl [] files))
         \<and> (\<forall>row. (file, row) \<notin> set (succeeded files (outcomes E cl [] files)))"
    by (rule outcomes_of_member[OF assms(1)]) (rule process_file_unsupported[OF assms(3,4)])
  then have "error_entry E file (HTTPException 400 msg_unsupported_type) \<in> set errors"
    unfolding process_files_errors[OF assms(5)] by force
  then have er: "(''Error processing '' @ filename file @ '': ''
                   @ http_str E 400 msg_unsupported_type) \<in> set errors"
    by (simp add: error_entry_def)
  have "FileRead (filename file) \<in> set tr"
    using process_files_trace[OF assms(5)] assms(1) by blast
  with gate ex m er show ?thesis by blast
qed


theorem upper_case_extension_fails_in_the_loop_witness:
  "accepted_name (filename cv_upper)
   \<and> process_files demo [''a''] [cv_upper, cv_extra] ([], [], []) =
       ([bob_row],
        [''Error processing resume.PDF: Unsupported file type. Only PDF and DOCX are allowed.''],
        [FileRead ''resume.PDF'', FileRead ''bob.pdf'', OracleCall ''extra'' [''a'']])
   \<and> extract_text_from_file demo cv_upper = Inl (HTTPException 400 msg_unsupported_type)
   \<and> (cv_upper, HTTPException 400 msg_unsupported_type)
       \<in> set (failed [cv_upper, cv_extra] (outcomes demo [''a''] [] [cv_upper, cv_extra]))"
proof -
  have h1: "cv_upper \<in> set [cv_upper, cv_extra]" by simp
  have h2: "list_all (\<lambda>g. accepted_name (filename g)) [cv_upper, cv_extra]" by code_simp
  have h3: "\<not> endswith (filename cv_upper) ''.pdf''" by code_simp
  have h4: "\<not> endswith (filename cv_upper) ''.docx''" by code_simp
  have h5: "process_files demo [''a''] [cv_upper, cv_extra] ([], [], []) =
       ([bob_row],
        [''Error processing resume.PDF: Unsupported file type. Only PDF and DOCX are allowed.''],
        [FileRead ''resume.PDF'', FileRead ''bob.pdf'', OracleCall ''extra'' [''a'']])"
    by code_simp
  have a: "accepted_name (filename cv_upper)" by code_simp
  from upper_case_extension_fails_in_the_loop[OF h1 h2 h3 h4 h5] a h5
  show ?thesis by blast
qed




text \<open>
  C6, as the claim states it, fails in its second half: the batch in which
  \<open>resume.PDF\<close> fails and \<open>bob.pdf\<close> succeeds returns the same as the batch of
  \<open>bob.pdf\<close> alone, although the first has an error in its list and the second has none.
  What is returned does not carry the error list.
\<close>

theorem errors_are_dropped_on_success:
  "fst (score_resumes demo [''a''] [cv_upper, cv_extra])
     = fst (score_resumes demo [''a''] [cv_extra])
   \<and> isl (fst (score_resumes demo [''a''] [cv_extra])) = False
   \<and> fst (snd (process_files demo [''a''] [cv_upper, cv_extra] ([], [], []))) =
       [''Error processing resume.PDF: Unsupported file type. Only PDF and DOCX are allowed.'']
   \<and> fst (snd (process_files demo [''a''] [cv_extra] ([], [], []))) = []"
  by code_simp

text \<open>
  C6, amended. For a batch of accepted files: if every document fails, the batch
  raises the 400 error whose detail is "No resumes could be processed successfully.
  Errors: " followed by the error entries of all the documents joined with "; ", and no
  frame is built; otherwise it returns the report of the rows, a function of the rows
  alone, and the error list is not part of what is returned.
\<close>

theorem all_failed_or_report:
  assumes "files \<noteq> []"
    and "list_all (\<lambda>g. accepted_name (filename g)) files"
    and "process_files E cl files ([], [], []) = (rows, errors, tr)"
  shows "score_resumes E cl files =
           (if list_all isl (outcomes E cl [] files)
            then (Inl (HTTPException 400
                    (''No resumes could be processed successfully. Errors: ''
                       @ join ''; '' errors)), tr)
            else (Inr (report rows), tr))
       \<and> (list_all isl (outcomes E cl [] files) \<longleftrightarrow> rows = [])
       \<and> rows = map snd (succeeded files (outcomes E cl [] files))
       \<and> errors = map (\<lambda>(f, e). ''Error processing '' @ filename f @ '': '' @ exc_str E e)
                    (failed files (outcomes E cl [] files))
       \<and> length errors = length (filter isl (outcomes E cl [] files))"
proof -
  let ?outs = "outcomes E cl [] files"
  have rows: "rows = map snd (succeeded files ?outs)" by (rule process_files_rows[OF assms(3)])
  have errors: "errors = map (\<lambda>(f, e). error_entry E f e) (failed files ?outs)"
    by (rule process_files_errors[OF assms(3)])
  have len: "length files = length ?outs" by simp
  have iff: "list_all isl ?outs \<longleftrightarrow> rows = []"
    unfolding rows using succeeded_Nil_iff[OF len] by (simp add: list_all_iff)
  from assms(2) have acc: "\<forall>g \<in> set files. accepted_name (filename g)"
    by (simp add: list_all_iff)
  have le: "length errors = length (filter isl ?outs)"
    unfolding errors using length_failed[OF len] by simp
  have ef: "errors = map (\<lambda>(f, e). ''Error processing '' @ filename f @ '': '' @ exc_str E e)
                      (failed files ?outs)"
    unfolding errors by (auto simp: error_entry_def)
  have "score_resumes E cl files =
           (if list_all isl ?outs
            then (Inl (HTTPException 400
                    (''No resumes could be processed successfully. Errors: ''
                       @ join ''; '' errors)), tr)
            else (Inr (report rows), tr))"
    using score_resumes_accepted[OF assms(1) acc assms(3)] iff
    by (simp add: msg_all_failed_def)
  with iff rows ef le show ?thesis by blast
qed

theorem all_failed_or_report_witness:
  "process_files demo [''a''] [cv_upper, cv_list] ([], [], []) =
     ([],
      [''Error processing resume.PDF: Unsupported file type. Only PDF and DOCX are allowed.'',
       ''Error processing list.docx: '' @ quoted ''list'' @ '' object has no attribute ''
          @ quoted ''get''],
      [FileRead ''resume.PDF'', FileRead ''list.docx'', OracleCall ''list'' [''a'']])
   \<and> score_resumes demo [''a''] [cv_upper, cv_list] =
     (Inl (HTTPException 400
        (''No resumes could be processed successfully. Errors: ''
           @ join ''; ''
               [''Error processing resume.PDF: Unsupported file type. Only PDF and DOCX are allowed.'',
                ''Error processing list.docx: '' @ quoted ''list''
                   @ '' object has no attribute '' @ quoted ''get''])),
      [FileRead ''resume.PDF'', FileRead ''list.docx'', OracleCall ''list'' [''a'']])"
proof -
  let ?files = "[cv_upper, cv_list]"
  have h1: "?files \<noteq> []" by simp
  have h2: "list_all (\<lambda>g. accepted_name (filename g)) ?files" by code_simp
  have h3: "process_files demo [''a''] ?files ([], [], []) =
     ([],
      [''Error processing resume.PDF: Unsupported file type. Only PDF and DOCX are allowed.'',
       ''Error processing list.docx: '' @ quoted ''list'' @ '' object has no attribute ''
          @ quoted ''get''],
      [FileRead ''resume.PDF'', FileRead ''list.docx'', OracleCall ''list'' [''a'']])"
    by code_simp
  have h4: "list_all isl (outcomes demo [''a''] [] ?files)" by code_simp
  from all_failed_or_report[OF h1 h2 h3, THEN conjunct1] h4
  have "score_resumes demo [''a''] [cv_upper, cv_list] =
     (Inl (HTTPException 400
        (''No resumes could be processed successfully. Errors: ''
           @ join ''; ''
               [''Error processing resume.PDF: Unsupported file type. Only PDF and DOCX are allowed.'',
                ''Error processing list.docx: '' @ quoted ''list''
                   @ '' object has no attribute '' @ quoted ''get''])),
      [FileRead ''resume.PDF'', FileRead ''list.docx'', OracleCall ''list'' [''a'']])"
    by (simp only: if_True)
  with h3 show ?thesis by (rule conjI)
qed


section \<open>The columns of the report\<close>

lemma filter_Score_criterion_keys:
  "\<forall>c \<in> set cs. \<not> contains ''Score'' c \<Longrightarrow>
   filter (contains ''Score'') (concat (map criterion_keys cs)) = map score_key cs"
  by (induction cs)
     (auto simp: criterion_keys_def contains_Score_score_key contains_Score_explanation_key)

lemma filter_Explanation_criterion_keys:
  "\<forall>c \<in> set cs. \<not> contains ''Explanation'' c \<Longrightarrow>
   filter (contains ''Explanation'') (concat (map criterion_keys cs)) = map explanation_key cs"
  by (induction cs)
     (auto simp: criterion_keys_def contains_Explanation_explanation_key
                 contains_Explanation_score_key)

lemma fixed_contains:
  "\<not> contains ''Score'' ''Filename''" "\<not> contains ''Score'' ''Candidate Name''"
  "contains ''Score'' ''Total Score''" "contains ''Score'' ''Average Score''"
  "\<not> contains ''Explanation'' ''Filename''" "\<not> contains ''Explanation'' ''Candidate Name''"
  "\<not> contains ''Explanation'' ''Total Score''" "\<not> contains ''Explanation'' ''Average Score''"
  by code_simp+

lemma report_columns_of_rows:
  assumes "rows \<noteq> []"
    and "\<forall>row \<in> set rows. \<exists>fname result. build_row E cl fname result = Inr row"
    and "\<forall>c \<in> set cl. \<not> contains ''Score'' c \<and> \<not> contains ''Explanation'' c"
  shows "report_columns rows =
           [''Filename'', ''Candidate Name''] @ map score_key (first_seen [] cl)
             @ [''Total Score'', ''Average Score''] @ map explanation_key (first_seen [] cl)"
proof -
  let ?cs = "first_seen [] cl"
  let ?K = "[''Filename'', ''Candidate Name''] @ concat (map criterion_keys ?cs)
              @ [''Total Score'', ''Average Score'']"
  have keys: "\<forall>row \<in> set rows. map fst row = ?K"
    using assms(2) build_row_keys by blast
  have "distinct ?K"
  proof -
    obtain row where "row \<in> set rows" using assms(1) by (cases rows) auto
    with assms(2) obtain fname result where b: "build_row E cl fname result = Inr row" by blast
    from build_row_distinct[OF b] show ?thesis unfolding build_row_keys[OF b] .
  qed
  with assms(1) keys have fc: "frame_columns rows = ?K" by (rule frame_columns_same_keys)
  have cs: "\<forall>c \<in> set ?cs. \<not> contains ''Score'' c" "\<forall>c \<in> set ?cs. \<not> contains ''Explanation'' c"
    using assms(3) by (auto simp: first_seen_set)
  have s: "filter (contains ''Score'') ?K = map score_key ?cs @ [''Total Score'', ''Average Score'']"
    using filter_Score_criterion_keys[OF cs(1)] by (simp add: fixed_contains del: contains.simps)
  have e: "filter (contains ''Explanation'') ?K = map explanation_key ?cs"
    using filter_Explanation_criterion_keys[OF cs(2)]
    by (simp add: fixed_contains del: contains.simps)
  show ?thesis
    unfolding report_columns_def Let_def fc s e by simp
qed

text \<open>
  C4, as the claim states it, fails on any batch: with the one criterion \<open>a\<close> the report
  has the columns Total Score and Average Score between the score column and the
  explanation column, and not the four columns the claim lists.
\<close>

theorem summary_columns_between_the_blocks:
  "batch_columns demo [''a''] [cv_extra] =
     Some [''Filename'', ''Candidate Name'', ''a (Score)'', ''Total Score'', ''Average Score'',
           ''a (Explanation)'']
   \<and> batch_columns demo [''a''] [cv_extra] \<noteq>
     Some ([''Filename'', ''Candidate Name''] @ map score_key [''a'']
             @ map explanation_key [''a''])"
  by code_simp

text \<open>
  C4, amended. When no criterion contains the text "Score" or the text "Explanation",
  the columns of the report are Filename, Candidate Name, one score column for each
  different criterion in the order of first occurrence in the criteria list, Total
  Score, Average Score, and one explanation column for each different criterion in the
  same order; no column occurs twice. When the criteria are pairwise different, that
  order is the order of the list.
\<close>

theorem report_column_order:
  assumes "fst (score_resumes E cl files) = Inr fr"
    and "\<forall>c \<in> set cl. \<not> contains ''Score'' c \<and> \<not> contains ''Explanation'' c"
  shows "columns fr =
           [''Filename'', ''Candidate Name''] @ map score_key (first_seen [] cl)
             @ [''Total Score'', ''Average Score''] @ map explanation_key (first_seen [] cl)
       \<and> distinct (columns fr)
       \<and> (distinct cl \<longrightarrow> first_seen [] cl = cl)"
proof -
  obtain rows errors tr where pf: "process_files E cl files ([], [], []) = (rows, errors, tr)"
    by (cases "process_files E cl files ([], [], [])") auto
  from assms(1) pf have ne: "rows \<noteq> []" and fr: "fr = report rows"
    by (auto simp: score_resumes_def split: if_splits option.splits)
  have built: "\<forall>row \<in> set rows. \<exists>fname result. build_row E cl fname result = Inr row"
    unfolding process_files_rows[OF pf] using succeeded_built by fastforce
  have c: "columns fr =
           [''Filename'', ''Candidate Name''] @ map score_key (first_seen [] cl)
             @ [''Total Score'', ''Average Score''] @ map explanation_key (first_seen [] cl)"
    unfolding fr report_def using report_columns_of_rows[OF ne built assms(2)] by simp
  have f: "''Filename'' \<in> fixed_keys" "''Candidate Name'' \<in> fixed_keys"
    "''Total Score'' \<in> fixed_keys" "''Average Score'' \<in> fixed_keys"
    by (simp_all add: fixed_keys_def)
  have nf: "\<And>k c. k \<in> fixed_keys \<Longrightarrow> k \<noteq> score_key c \<and> k \<noteq> explanation_key c"
    by auto
  have d: "distinct (columns fr)"
    unfolding c using nf[OF f(1)] nf[OF f(2)] nf[OF f(3)] nf[OF f(4)]
    by (auto simp: distinct_map first_seen_is_distinct inj_on_def)
  have "distinct cl \<longrightarrow> first_seen [] cl = cl"
    by (simp add: first_seen_distinct)
  with c d show ?thesis by blast
qed

theorem report_column_order_witness:
  "fst (score_resumes demo [''a'', ''b'', ''a''] [cv_upper, cv_extra]) =
     Inr (report [bob_row_ab])
   \<and> columns (report [bob_row_ab]) =
     [''Filename'', ''Candidate Name'', ''a (Score)'', ''b (Score)'', ''Total Score'',
      ''Average Score'', ''a (Explanation)'', ''b (Explanation)'']"
proof -
  let ?row = "bob_row_ab"
  have h1: "fst (score_resumes demo [''a'', ''b'', ''a''] [cv_upper, cv_extra]) = Inr (report [?row])"
    by code_simp
  have "\<not> contains ''Score'' ''a''" "\<not> contains ''Explanation'' ''a''"
    "\<not> contains ''Score'' ''b''" "\<not> contains ''Explanation'' ''b''"
    by code_simp+
  then have h2: "\<forall>c \<in> set [''a'', ''b'', ''a''].
                   \<not> contains ''Score'' c \<and> \<not> contains ''Explanation'' c"
    by simp
  have fs: "first_seen [] [''a'', ''b'', ''a''] = [''a'', ''b'']" by code_simp
  from report_column_order[OF h1 h2]
  have "columns (report [?row]) =
           [''Filename'', ''Candidate Name''] @ map score_key (first_seen [] [''a'', ''b'', ''a''])
             @ [''Total Score'', ''Average Score'']
             @ map explanation_key (first_seen [] [''a'', ''b'', ''a''])"
    by (rule conjunct1)
  then have "columns (report [?row]) =
     [''Filename'', ''Candidate Name'', ''a (Score)'', ''b (Score)'', ''Total Score'',
      ''Average Score'', ''a (Explanation)'', ''b (Explanation)'']"
    unfolding fs by (simp add: score_key_def explanation_key_def)
  with h1 show ?thesis by (rule conjI)
qed

text \<open>
  With a criterion that contains "Score", the explanation column of that criterion is
  taken into the score block as well and so occurs twice.
\<close>

lemma score_in_a_criterion_repeats_a_column:
  "batch_columns demo [''Score high''] [cv_extra] =
     Some [''Filename'', ''Candidate Name'', ''Score high (Score)'', ''Score high (Explanation)'',
           ''Total Score'', ''Average Score'', ''Score high (Explanation)'']"
  by code_simp


end
